theory Spec2Isabelle
  imports Main "HOL-Library.Sublist" "HOL-Library.List_Lexorder" "HOL-Library.Multiset"
begin

section \<open>Python text\<close>

text \<open>
  A Python \<^verbatim>\<open>str\<close> is a sequence of Unicode code points. It is modelled as a list of
  natural numbers, one per code point; \<open>lit\<close> turns an ASCII literal into such a list.
  Comparison of \<^verbatim>\<open>str\<close> values is lexicographic by code point, which is the order of
  \<open>nat list\<close>.
\<close>

type_synonym pystr = "nat list"

definition lit :: "string \<Rightarrow> pystr" where
  "lit s = map of_char s"

subsection \<open>The character database\<close>

text \<open>
  \<^verbatim>\<open>str.title\<close> and \<^verbatim>\<open>str.strip\<close> consult the interpreter's Unicode character
  database. The database is data of the interpreter, not of this repository, and it is a
  parameter of the model:
  \<^item> \<open>is_cased c\<close>: the code point has the property Cased;
  \<^item> \<open>title_full c\<close>: the full titlecase mapping of \<open>c\<close> (one to three code points);
  \<^item> \<open>lower_at s i\<close>: the full lowercase mapping of the code point at index \<open>i\<close> of
    \<open>s\<close> (the interpreter looks at the neighbours of a capital sigma, so the mapping
    takes the whole string);
  \<^item> \<open>is_space c\<close>: the code point is whitespace.
\<close>

record ucd =
  is_cased :: "nat \<Rightarrow> bool"
  title_full :: "nat \<Rightarrow> pystr"
  lower_at :: "pystr \<Rightarrow> nat \<Rightarrow> pystr"
  is_space :: "nat \<Rightarrow> bool"

text \<open>The ASCII part of the database: the letters are cased, nothing else is.\<close>

definition ascii_upper_letter :: "nat \<Rightarrow> bool" where
  "ascii_upper_letter c = (65 \<le> c \<and> c \<le> 90)"

definition ascii_lower_letter :: "nat \<Rightarrow> bool" where
  "ascii_lower_letter c = (97 \<le> c \<and> c \<le> 122)"

definition ascii_cased :: "nat \<Rightarrow> bool" where
  "ascii_cased c = (ascii_upper_letter c \<or> ascii_lower_letter c)"

definition ascii_to_upper :: "nat \<Rightarrow> nat" where
  "ascii_to_upper c = (if ascii_lower_letter c then c - 32 else c)"

definition ascii_to_lower :: "nat \<Rightarrow> nat" where
  "ascii_to_lower c = (if ascii_upper_letter c then c + 32 else c)"

definition ascii_space :: "nat \<Rightarrow> bool" where
  "ascii_space c = ((9 \<le> c \<and> c \<le> 13) \<or> (28 \<le> c \<and> c \<le> 32))"

text \<open>
  A database \<open>agrees with ASCII\<close> when it has these values on the code points below 128.
  Every version of the Unicode database does.
\<close>

definition agrees_with_ascii :: "ucd \<Rightarrow> bool" where
  "agrees_with_ascii db =
     (\<forall>c < 128. is_cased db c = ascii_cased c \<and> title_full db c = [ascii_to_upper c]
        \<and> is_space db c = ascii_space c
        \<and> (\<forall>s i. i < length s \<and> s ! i = c \<longrightarrow> lower_at db s i = [ascii_to_lower c]))"

text \<open>
  Two databases to compute with. \<open>ascii_db\<close> treats every code point from 128 on as caseless.
  \<open>sample_db\<close> adds the entries of the Unicode database for U+1E9A (LATIN SMALL LETTER A WITH
  RIGHT HALF RING), a cased letter whose titlecase mapping is the two code points U+0041
  U+02BE, the second of which (MODIFIER LETTER RIGHT HALF RING) is not cased.
\<close>

definition ascii_db :: ucd where
  "ascii_db = \<lparr> is_cased = (\<lambda>c. c < 128 \<and> ascii_cased c),
                title_full = (\<lambda>c. [ascii_to_upper c]),
                lower_at = (\<lambda>s i. if i < length s then [ascii_to_lower (s ! i)] else []),
                is_space = (\<lambda>c. c < 128 \<and> ascii_space c) \<rparr>"

definition sample_db :: ucd where
  "sample_db = \<lparr> is_cased = (\<lambda>c. c = 0x1E9A \<or> ascii_cased c),
                 title_full = (\<lambda>c. if c = 0x1E9A then [0x41, 0x2BE] else [ascii_to_upper c]),
                 lower_at = (\<lambda>s i. if i < length s then [ascii_to_lower (s ! i)] else []),
                 is_space = ascii_space \<rparr>"

subsection \<open>String methods\<close>

text \<open>
  \<^verbatim>\<open>str.title()\<close>: the interpreter walks the string once; a code point that follows a
  cased one is lowercased, any other is titlecased, and whether the next one "follows a cased
  one" is decided on the code point read, not on the one written.
\<close>

fun do_title :: "ucd \<Rightarrow> pystr \<Rightarrow> nat \<Rightarrow> bool \<Rightarrow> pystr \<Rightarrow> pystr" where
  "do_title db s i previous_is_cased [] = []"
| "do_title db s i previous_is_cased (c # cs) =
     (if previous_is_cased then lower_at db s i else title_full db c)
       @ do_title db s (i + 1) (is_cased db c) cs"

definition title :: "ucd \<Rightarrow> pystr \<Rightarrow> pystr" where
  "title db s = do_title db s 0 False s"

text \<open>
  \<^verbatim>\<open>s.replace(old, new)\<close> for a non-empty \<open>old\<close>: the occurrences of \<open>old\<close> are found from
  the left and do not overlap. (For an empty \<open>old\<close> Python inserts \<open>new\<close> around every
  character; the repository never does that, and the model leaves the string as it is.)
\<close>

function replace :: "'a list \<Rightarrow> 'a list \<Rightarrow> 'a list \<Rightarrow> 'a list" where
  "replace old new [] = []"
| "replace old new (c # cs) =
     (if old \<noteq> [] \<and> prefix old (c # cs)
      then new @ replace old new (drop (length old) (c # cs))
      else c # replace old new cs)"
  by pat_completeness auto
termination
  by (relation "measure (\<lambda>(old, new, s). length s)") (auto simp: neq_Nil_conv)

text \<open>\<^verbatim>\<open>s.strip()\<close>: whitespace is dropped at both ends.\<close>

definition strip :: "ucd \<Rightarrow> pystr \<Rightarrow> pystr" where
  "strip db s = rev (dropWhile (is_space db) (rev (dropWhile (is_space db) s)))"

text \<open>\<^verbatim>\<open>str(n)\<close> for an integer: the decimal numeral, with a minus sign when negative.\<close>

fun str_nat :: "nat \<Rightarrow> pystr" where
  "str_nat n = (if n < 10 then [48 + n] else str_nat (n div 10) @ [48 + n mod 10])"

declare str_nat.simps [simp del]

definition str_int :: "int \<Rightarrow> pystr" where
  "str_int i = (if i < 0 then 45 # str_nat (nat (- i)) else str_nat (nat i))"

text \<open>\<^verbatim>\<open>int(s)\<close> on a decimal numeral, to read a page number back from a table cell.\<close>

definition is_digit :: "nat \<Rightarrow> bool" where
  "is_digit c = (48 \<le> c \<and> c \<le> 57)"

definition dec_value :: "pystr \<Rightarrow> nat" where
  "dec_value ds = foldl (\<lambda>a d. 10 * a + (d - 48)) 0 ds"

definition nat_of_str :: "pystr \<Rightarrow> nat option" where
  "nat_of_str ds = (if ds \<noteq> [] \<and> list_all is_digit ds then Some (dec_value ds) else None)"

definition int_of_str :: "pystr \<Rightarrow> int option" where
  "int_of_str s =
     (case s of
        [] \<Rightarrow> None
      | c # ds \<Rightarrow> if c = 45 then map_option (\<lambda>n. - int n) (nat_of_str ds)
                  else map_option int (nat_of_str s))"

section \<open>Errors\<close>

text \<open>
  The exceptions of the program, named as the specification names them. \<open>ParseError\<close> is
  the \<^verbatim>\<open>SyntaxError\<close> of \<^verbatim>\<open>ast.parse\<close> (file name and message),
  \<open>TemplateError\<close> a prompt template that cannot be read, \<open>FormatError\<close> any exception of
  \<^verbatim>\<open>str.format\<close> (\<^verbatim>\<open>ValueError\<close>, \<^verbatim>\<open>KeyError\<close>, \<^verbatim>\<open>IndexError\<close>),
  \<open>GenerationError\<close> a failed call of the generation service, \<open>IOError\<close> a file that
  cannot be read or written, and \<open>SegmentError\<close> an exception of
  \<^verbatim>\<open>ast.get_source_segment\<close> (a line number or a byte offset that does not fit the text).
\<close>

datatype error =
    ParseError pystr pystr
  | TemplateError pystr
  | FormatError
  | GenerationError pystr
  | IOError pystr
  | SegmentError

section \<open>Format strings (str.format)\<close>

text \<open>
  \<^verbatim>\<open>template.format(key=val)\<close> with one keyword argument whose value is a string.
  Literal text is copied; \<^verbatim>\<open>{{\<close> and \<^verbatim>\<open>}}\<close> stand for one brace; a single
  \<^verbatim>\<open>}\<close> is an error; \<^verbatim>\<open>{\<close> opens a replacement field
  \<^verbatim>\<open>{field_name!conversion:format_spec}\<close>.

  The interpreter first finds the end of the field. The field name runs up to \<^verbatim>\<open>}\<close>,
  \<^verbatim>\<open>:\<close> or \<^verbatim>\<open>!\<close>; inside \<^verbatim>\<open>[ ]\<close> these do not end it, and a
  \<^verbatim>\<open>{\<close> in the name is an error. A conversion is one character after \<^verbatim>\<open>!\<close> and
  must be followed by \<^verbatim>\<open>}\<close> or \<^verbatim>\<open>:\<close>. A format specification runs to the
  matching \<^verbatim>\<open>}\<close>, counting nested braces.
\<close>

type_synonym field_renderer = "pystr \<Rightarrow> nat option \<Rightarrow> pystr \<Rightarrow> pystr \<Rightarrow> error + pystr"

fun parse_name :: "bool \<Rightarrow> pystr \<Rightarrow> pystr \<Rightarrow> (pystr \<times> pystr) option" where
  "parse_name in_brackets acc [] = None"
| "parse_name in_brackets acc (c # cs) =
     (if in_brackets then parse_name (c \<noteq> 93) (acc @ [c]) cs
      else if c = 123 then None
      else if c = 91 then parse_name True (acc @ [c]) cs
      else if c = 125 \<or> c = 58 \<or> c = 33 then Some (acc, c # cs)
      else parse_name False (acc @ [c]) cs)"

fun parse_spec :: "nat \<Rightarrow> pystr \<Rightarrow> pystr \<Rightarrow> (pystr \<times> pystr) option" where
  "parse_spec depth acc [] = None"
| "parse_spec depth acc (c # cs) =
     (if c = 123 then parse_spec (depth + 1) (acc @ [c]) cs
      else if c = 125 then (if depth = 1 then Some (acc, cs) else parse_spec (depth - 1) (acc @ [c]) cs)
      else parse_spec depth (acc @ [c]) cs)"

definition parse_field :: "pystr \<Rightarrow> (pystr \<times> nat option \<times> pystr \<times> pystr) option" where
  "parse_field s =
     (case parse_name False [] s of
        None \<Rightarrow> None
      | Some (field_name, rest) \<Rightarrow>
          (case rest of
             [] \<Rightarrow> None
           | c # r \<Rightarrow>
               if c = 125 then Some (field_name, None, [], r)
               else if c = 33 then
                 (case r of
                    [] \<Rightarrow> None
                  | conversion # r1 \<Rightarrow>
                      (case r1 of
                         [] \<Rightarrow> None
                       | c2 # r2 \<Rightarrow>
                           if c2 = 125 then Some (field_name, Some conversion, [], r2)
                           else if c2 \<noteq> 58 then None
                           else map_option (\<lambda>(spec, r3). (field_name, Some conversion, spec, r3))
                                  (parse_spec 1 [] r2)))
               else map_option (\<lambda>(spec, r3). (field_name, None, spec, r3)) (parse_spec 1 [] r)))"

definition render_field ::
  "field_renderer \<Rightarrow> pystr \<Rightarrow> pystr \<Rightarrow> pystr \<Rightarrow> nat option \<Rightarrow> pystr \<Rightarrow> error + pystr" where
  "render_field render key val field_name conversion format_spec =
     (let first = takeWhile (\<lambda>c. c \<noteq> 46 \<and> c \<noteq> 91) field_name
      in if first = [] \<or> first \<noteq> key then Inl FormatError
         else if first = field_name \<and> (conversion = None \<or> conversion = Some 115) \<and> format_spec = []
         then Inr val
         else render field_name conversion format_spec val)"

text \<open>The rest of the template after a field is shorter than the template.\<close>

lemma parse_name_length:
  "parse_name b acc s = Some (name, rest) \<Longrightarrow> length rest \<le> length s"
  by (induction b acc s rule: parse_name.induct) (auto split: if_splits)

lemma parse_spec_length:
  "parse_spec k acc s = Some (spec, rest) \<Longrightarrow> length rest < length s"
  by (induction k acc s rule: parse_spec.induct) (auto split: if_splits)

lemma parse_field_length:
  "parse_field s = Some (name, conv, spec, rest) \<Longrightarrow> length rest < length s"
  by (auto simp: parse_field_def split: option.splits list.splits if_splits
           dest!: parse_name_length parse_spec_length)

text \<open>
  The value of a field. The part of the name before the first \<^verbatim>\<open>.\<close> or \<^verbatim>\<open>[\<close>
  selects the argument: empty or a number, it is positional, and there is no positional
  argument; otherwise it must be the keyword. A field that is just the keyword, with no
  conversion or the conversion \<^verbatim>\<open>s\<close> and an empty specification, is replaced by the value
  as it is. Attribute and index lookups, the conversions \<^verbatim>\<open>r\<close> and \<^verbatim>\<open>a\<close> and
  non-empty specifications are the work of the object protocol of the interpreter, which is
  the parameter \<open>render\<close> (field name, conversion, specification, value).
\<close>

function format_from :: "field_renderer \<Rightarrow> pystr \<Rightarrow> pystr \<Rightarrow> pystr \<Rightarrow> pystr \<Rightarrow> error + pystr" where
  "format_from render key val acc [] = Inr acc"
| "format_from render key val acc (c # cs) =
     (if c = 125 then
        (case cs of
           [] \<Rightarrow> Inl FormatError
         | c2 # r \<Rightarrow> if c2 = 125 then format_from render key val (acc @ [125]) r
                     else Inl FormatError)
      else if c = 123 then
        (case cs of
           [] \<Rightarrow> Inl FormatError
         | c2 # r \<Rightarrow>
             if c2 = 123 then format_from render key val (acc @ [123]) r
             else (case parse_field cs of
                     None \<Rightarrow> Inl FormatError
                   | Some (field_name, conversion, format_spec, rest) \<Rightarrow>
                       (case render_field render key val field_name conversion format_spec of
                          Inl e \<Rightarrow> Inl e
                        | Inr rendered \<Rightarrow> format_from render key val (acc @ rendered) rest)))
      else format_from render key val (acc @ [c]) cs)"
  by pat_completeness auto
termination
  by (relation "measure (\<lambda>(render, key, val, acc, s). length s)")
     (auto dest: parse_field_length)

definition str_format :: "field_renderer \<Rightarrow> pystr \<Rightarrow> pystr \<Rightarrow> pystr \<Rightarrow> error + pystr" where
  "str_format render template key val = format_from render key val [] template"

text \<open>A renderer that fails on every field it is asked about, to compute with.\<close>

definition no_renderer :: field_renderer where
  "no_renderer field_name conversion format_spec val = Inl FormatError"

text \<open>
  Two notions for stating properties: a keyword without any character that is special in a
  field name, and text without braces.
\<close>

definition plain_key :: "pystr \<Rightarrow> bool" where
  "plain_key key = (key \<noteq> [] \<and> list_all (\<lambda>c. c \<notin> {123, 125, 91, 46, 58, 33}) key)"

definition brace_free :: "pystr \<Rightarrow> bool" where
  "brace_free s = list_all (\<lambda>c. c \<noteq> 123 \<and> c \<noteq> 125) s"

section \<open>The document aggregator (combine\_markdown\_files)\<close>

text \<open>
  The directory listing and the files are outside the program. \<^verbatim>\<open>glob\<close> returns the
  Markdown files of one folder, so a file is identified by its name in that folder
  (\<^verbatim>\<open>os.path.basename\<close> of the path; the paths share the folder as a prefix and sort like
  the names). Reading a file either gives its text or raises; the model's \<open>read\<close> returns
  \<open>Inr\<close> of the text or \<open>Inl\<close> of the text of the exception (\<^verbatim>\<open>str(e)\<close>).
\<close>

text \<open>
  The heading of a module:
  \<^verbatim>\<open>filename.replace("_", " ").replace(".md", "").title()\<close>.
\<close>

definition file_title :: "ucd \<Rightarrow> pystr \<Rightarrow> pystr" where
  "file_title db filename =
     title db (replace (lit ''.md'') [] (replace (lit ''_'') (lit '' '') filename))"

text \<open>The separator between modules: a rule, then a page-break directive.\<close>

definition page_break_marker :: pystr where
  "page_break_marker = lit ''\<newline>\<newline>---\<newline>\<newline>'' @ [92] @ lit ''newpage\<newline>\<newline>''"

definition document_title :: pystr where
  "document_title = lit ''# Project: CRUD Functionality Documentation\<newline>\<newline>''"

text \<open>
  The loop \<^verbatim>\<open>for index, md_file in enumerate(md_files)\<close>, with \<open>n\<close> the number of
  files. The whole body is inside \<^verbatim>\<open>try\<close>: when the read raises, nothing of this file
  has been appended yet, and the handler appends the error block.
\<close>

fun combine_loop :: "ucd \<Rightarrow> (pystr \<Rightarrow> pystr + pystr) \<Rightarrow> nat \<Rightarrow> nat \<Rightarrow> pystr list \<Rightarrow> pystr \<Rightarrow> pystr" where
  "combine_loop db read n index [] combined_content = combined_content"
| "combine_loop db read n index (md_file # rest) combined_content =
     combine_loop db read n (index + 1) rest
       (case read md_file of
          Inr content \<Rightarrow>
            combined_content @ lit ''\<newline>\<newline># '' @ file_title db md_file @ lit ''\<newline>\<newline>''
              @ strip db content
              @ (if int index < int n - 1 then page_break_marker else [])
        | Inl e \<Rightarrow>
            combined_content @ lit ''\<newline>\<newline>## Error processing '' @ md_file @ lit ''\<newline>''
              @ e @ lit ''\<newline>\<newline>'')"

definition combined_content :: "ucd \<Rightarrow> (pystr \<Rightarrow> pystr + pystr) \<Rightarrow> pystr list \<Rightarrow> pystr" where
  "combined_content db read md_files =
     combine_loop db read (length md_files) 0 (sort md_files) document_title"

text \<open>
  The function returns nothing; what it does is the outcome. With no Markdown file it prints
  \<^verbatim>\<open>[ERROR] No .md files found\<close> and returns before anything is written
  (\<open>NoInputError\<close>). Otherwise it writes the combined text; \<open>write\<close> is the attempt to write
  the output file, \<open>None\<close> when it succeeds and the text of the exception when it raises.
\<close>

datatype combine_outcome = NoInputError | Saved pystr | WriteError pystr

definition combine_markdown_files ::
  "ucd \<Rightarrow> (pystr \<Rightarrow> pystr + pystr) \<Rightarrow> (pystr \<Rightarrow> pystr option) \<Rightarrow> pystr list \<Rightarrow> combine_outcome" where
  "combine_markdown_files db read write md_files =
     (if md_files = [] then NoInputError
      else let content = combined_content db read md_files
           in case write content of None \<Rightarrow> Saved content | Some e \<Rightarrow> WriteError e)"

subsection \<open>Splitting the combined text\<close>

text \<open>
  \<^verbatim>\<open>s.split(sep)\<close> for a non-empty separator: the occurrences of \<open>sep\<close> are found from
  the left and do not overlap; the result has one more element than there are occurrences.
\<close>

function split_from :: "'a list \<Rightarrow> 'a list \<Rightarrow> 'a list \<Rightarrow> 'a list list" where
  "split_from sep cur [] = [cur]"
| "split_from sep cur (c # cs) =
     (if sep \<noteq> [] \<and> prefix sep (c # cs)
      then cur # split_from sep [] (drop (length sep) (c # cs))
      else split_from sep (cur @ [c]) cs)"
  by pat_completeness auto
termination
  by (relation "measure (\<lambda>(sep, cur, s). length s)") (auto simp: neq_Nil_conv)

definition py_split :: "'a list \<Rightarrow> 'a list \<Rightarrow> 'a list list" where
  "py_split sep s = split_from sep [] s"

text \<open>
  What the specification expects the segments to be: one section per file, in the order of
  the sorted file names, the first one after the title of the document. The section of a
  file is its heading and its stripped text, or the error block when it could not be read.
\<close>

definition module_section :: "ucd \<Rightarrow> (pystr \<Rightarrow> pystr + pystr) \<Rightarrow> pystr \<Rightarrow> pystr" where
  "module_section db read md_file =
     (case read md_file of
        Inr content \<Rightarrow>
          lit ''\<newline>\<newline># '' @ file_title db md_file @ lit ''\<newline>\<newline>'' @ strip db content
      | Inl e \<Rightarrow>
          lit ''\<newline>\<newline>## Error processing '' @ md_file @ lit ''\<newline>'' @ e @ lit ''\<newline>\<newline>'')"

definition expected_segments :: "ucd \<Rightarrow> (pystr \<Rightarrow> pystr + pystr) \<Rightarrow> pystr list \<Rightarrow> pystr list" where
  "expected_segments db read md_files =
     (case map (module_section db read) (sort md_files) of
        [] \<Rightarrow> []
      | s # ss \<Rightarrow> (document_title @ s) # ss)"

fun join :: "'a list \<Rightarrow> 'a list list \<Rightarrow> 'a list" where
  "join sep [] = []"
| "join sep [s] = s"
| "join sep (s # t # ss) = s @ sep @ join sep (t # ss)"

text \<open>
  \<open>ascii_title\<close> is \<^verbatim>\<open>str.title\<close> written out for ASCII text; it is what \<open>title\<close>
  computes there under any database that agrees with ASCII.
\<close>

fun ascii_title :: "bool \<Rightarrow> pystr \<Rightarrow> pystr" where
  "ascii_title previous_is_cased [] = []"
| "ascii_title previous_is_cased (c # cs) =
     (if previous_is_cased then ascii_to_lower c else ascii_to_upper c)
       # ascii_title (ascii_cased c) cs"

section \<open>The report composer (srs\_generator.py)\<close>

text \<open>
  The story handed to the layout engine is a list of flowables. Styles and sizes play no
  part in what is proved and are left out of the flowables.
\<close>

datatype flowable =
    Paragraph pystr
  | Spacer
  | Table "pystr list list"
  | PageBreak

text \<open>
  The loop of \<^verbatim>\<open>create_table_of_contents\<close>:
  \<^verbatim>\<open>for i, module in enumerate(modules, 4)\<close> appends one row and adds 2 to
  \<^verbatim>\<open>page_num\<close>. The state is the table built so far and the page number.
\<close>

fun toc_loop :: "ucd \<Rightarrow> int \<Rightarrow> pystr list \<Rightarrow> pystr list list \<times> int \<Rightarrow> pystr list list \<times> int" where
  "toc_loop db i [] (toc_data, page_num) = (toc_data, page_num)"
| "toc_loop db i (module # modules) (toc_data, page_num) =
     toc_loop db (i + 1) modules
       (toc_data @ [[str_int i @ lit ''. '' @ title db module @ lit '' Module Requirements'',
                     str_int page_num]],
        page_num + 2)"

definition toc_data :: "ucd \<Rightarrow> pystr list \<Rightarrow> pystr list list" where
  "toc_data db modules =
     (let (rows, page_num) =
            toc_loop db 4 modules
              ([[lit ''Section'', lit ''Page''],
                [lit ''1. Introduction'', lit ''3''],
                [lit ''2. System Overview'', lit ''4''],
                [lit ''3. Functional Requirements'', lit ''5'']], 6)
      in rows @
         [[str_int (int (length modules) + 4) @ lit ''. Non-Functional Requirements'',
           str_int page_num],
          [str_int (int (length modules) + 5) @ lit ''. Appendices'', str_int (page_num + 1)]])"

definition create_table_of_contents :: "ucd \<Rightarrow> flowable list \<Rightarrow> pystr list \<Rightarrow> flowable list" where
  "create_table_of_contents db story modules =
     story @ [Paragraph (lit ''Table of Contents''), Spacer, Table (toc_data db modules), PageBreak]"

text \<open>
  The first row of the table is its heading (Section, Page); the entries of the table of
  contents are the rows after it, and the page of an entry is the number in its second cell.
\<close>

definition toc_entries :: "ucd \<Rightarrow> pystr list \<Rightarrow> pystr list list" where
  "toc_entries db modules = tl (toc_data db modules)"

definition entry_page :: "pystr list \<Rightarrow> int option" where
  "entry_page row = (case row of [label, page] \<Rightarrow> int_of_str page | _ \<Rightarrow> None)"

subsection \<open>The requirements text of a module (generate\_srs\_content)\<close>

text \<open>
  The built-in template, \<^verbatim>\<open>get_default_prompt\<close>: the text before the placeholder, the
  placeholder, the text after it.
\<close>

definition default_prompt_head :: pystr where
  "default_prompt_head =
      lit ''\<newline>''
      @ lit ''        Analyze the following CRUD function documentation and create a comprehensive Software Requirements Specification (SRS) section.\<newline>''
      @ lit ''\<newline>''
      @ lit ''        Function Documentation:\<newline>''
      @ lit ''        ''"

definition default_prompt_tail :: pystr where
  "default_prompt_tail =
      lit ''\<newline>''
      @ lit ''\<newline>''
      @ lit ''        Please provide:\<newline>''
      @ lit ''        1. **Functional Requirements**: Clear, testable requirements in '' @ [34] @ lit ''The system shall...'' @ [34] @ lit '' format\<newline>''
      @ lit ''        2. **Business Logic**: Explanation of the business rules and logic\<newline>''
      @ lit ''        3. **Input/Output Specifications**: Detailed parameter descriptions and return values\<newline>''
      @ lit ''        4. **Error Handling**: Expected error conditions and responses\<newline>''
      @ lit ''        5. **Performance Requirements**: Any performance considerations\<newline>''
      @ lit ''        6. **Security Considerations**: Authentication, authorization, data validation needs\<newline>''
      @ lit ''\<newline>''
      @ lit ''        Write in professional SRS format suitable for stakeholders, developers, and testers.\<newline>''
      @ lit ''        Use clear, non-technical language where possible while maintaining technical accuracy.\<newline>''
      @ lit ''        ''"

definition get_default_prompt :: pystr where
  "get_default_prompt = default_prompt_head @ lit ''{function_docs}'' @ default_prompt_tail"

text \<open>
  \<^verbatim>\<open>load_prompt_template\<close> reads \<^verbatim>\<open>srs_prompt_template.txt\<close>; only
  \<^verbatim>\<open>FileNotFoundError\<close> is caught, and answered with the built-in template.
\<close>

datatype template_file = NotFound | Unreadable pystr | Contents pystr

definition load_prompt_template :: "template_file \<Rightarrow> error + pystr" where
  "load_prompt_template file =
     (case file of
        Contents t \<Rightarrow> Inr t
      | NotFound \<Rightarrow> Inr get_default_prompt
      | Unreadable e \<Rightarrow> Inl (TemplateError e))"

text \<open>
  \<^verbatim>\<open>generate_srs_content\<close>: the template is loaded and formatted before the
  \<^verbatim>\<open>try\<close>; the call of the service and the reading of its answer are inside it, and
  \<open>service\<close> returns \<open>Inl\<close> of \<^verbatim>\<open>str(e)\<close> when either raises.
\<close>

definition generate_srs_content ::
  "ucd \<Rightarrow> field_renderer \<Rightarrow> template_file \<Rightarrow> (pystr \<Rightarrow> pystr + pystr) \<Rightarrow> pystr \<Rightarrow> error + pystr" where
  "generate_srs_content db render file service function_docs =
     (case load_prompt_template file of
        Inl e \<Rightarrow> Inl e
      | Inr prompt_template \<Rightarrow>
          (case str_format render prompt_template (lit ''function_docs'') function_docs of
             Inl e \<Rightarrow> Inl e
           | Inr prompt \<Rightarrow>
               (case service prompt of
                  Inr response \<Rightarrow> Inr (strip db response)
                | Inl e \<Rightarrow> Inr (lit ''Error generating content for this module: '' @ e))))"

section \<open>The per-unit pipeline (doc\_generator.py)\<close>

text \<open>
  \<^verbatim>\<open>generate_doc\<close> reads \<^verbatim>\<open>prompt_template.txt\<close> (\<open>template_file\<close> is the
  outcome of that read: the text, or \<open>Inl\<close> of the text of the exception), formats it with
  \<^verbatim>\<open>code=code_snippet\<close>, calls the service and strips its answer. Nothing is caught.
\<close>

definition generate_doc ::
  "ucd \<Rightarrow> field_renderer \<Rightarrow> pystr + pystr \<Rightarrow> (pystr \<Rightarrow> pystr + pystr) \<Rightarrow> pystr \<Rightarrow> error + pystr" where
  "generate_doc db render template_file service code_snippet =
     (case template_file of
        Inl e \<Rightarrow> Inl (TemplateError e)
      | Inr prompt_template \<Rightarrow>
          (case str_format render prompt_template (lit ''code'') code_snippet of
             Inl e \<Rightarrow> Inl e
           | Inr prompt \<Rightarrow>
               (case service prompt of
                  Inl e \<Rightarrow> Inl (GenerationError e)
                | Inr response \<Rightarrow> Inr (strip db response))))"

section \<open>Properties of the module heading\<close>

lemma do_title_ascii:
  assumes db: "agrees_with_ascii db" and s: "list_all (\<lambda>c. c < 128) s"
  shows "do_title db s i prev (drop i s) = ascii_title prev (drop i s)"
proof (induction "length s - i" arbitrary: i prev)
  case 0
  then show ?case by simp
next
  case (Suc n)
  then have i: "i < length s" by simp
  then have d: "drop i s = s ! i # drop (Suc i) s" by (simp add: Cons_nth_drop_Suc)
  have c: "s ! i < 128" using s i by (simp add: list_all_length)
  have ih: "do_title db s (Suc i) b (drop (Suc i) s) = ascii_title b (drop (Suc i) s)" for b
    using Suc.hyps(1) [of "Suc i" b] Suc.hyps(2) by simp
  have "is_cased db (s ! i) = ascii_cased (s ! i)" "title_full db (s ! i) = [ascii_to_upper (s ! i)]"
       "lower_at db s i = [ascii_to_lower (s ! i)]"
    using db c i by (auto simp: agrees_with_ascii_def)
  then show ?case using ih by (simp add: d)
qed

lemma title_ascii:
  "agrees_with_ascii db \<Longrightarrow> list_all (\<lambda>c. c < 128) s \<Longrightarrow> title db s = ascii_title False s"
  using do_title_ascii [of db s 0 False] by (simp add: title_def)

lemma ascii_title_ascii: "list_all (\<lambda>c. c < 128) s \<Longrightarrow> list_all (\<lambda>c. c < 128) (ascii_title b s)"
  by (induction s arbitrary: b) (auto simp: ascii_to_lower_def ascii_to_upper_def ascii_upper_letter_def ascii_lower_letter_def)

lemma ascii_cased_to_lower: "ascii_cased (ascii_to_lower c) = ascii_cased c"
  by (auto simp: ascii_cased_def ascii_to_lower_def ascii_upper_letter_def ascii_lower_letter_def)

lemma ascii_cased_to_upper: "ascii_cased (ascii_to_upper c) = ascii_cased c"
  by (auto simp: ascii_cased_def ascii_to_upper_def ascii_upper_letter_def ascii_lower_letter_def)

lemma ascii_to_lower_idem: "ascii_to_lower (ascii_to_lower c) = ascii_to_lower c"
  by (auto simp: ascii_to_lower_def ascii_upper_letter_def)

lemma ascii_to_upper_idem: "ascii_to_upper (ascii_to_upper c) = ascii_to_upper c"
  by (auto simp: ascii_to_upper_def ascii_lower_letter_def)

lemma ascii_title_idem: "ascii_title b (ascii_title b s) = ascii_title b s"
  by (induction s arbitrary: b)
     (simp_all add: ascii_cased_to_lower ascii_cased_to_upper ascii_to_lower_idem ascii_to_upper_idem)

lemma ascii_title_underscore: "95 \<notin> set s \<Longrightarrow> 95 \<notin> set (ascii_title b s)"
  by (induction s arbitrary: b)
     (auto simp: ascii_to_lower_def ascii_to_upper_def ascii_upper_letter_def ascii_lower_letter_def)

lemma replace_absent: "\<not> sublist old s \<Longrightarrow> replace old new s = s"
proof (induction s)
  case Nil
  show ?case by simp
next
  case (Cons c cs)
  have "\<not> prefix old (c # cs)" using Cons.prems by (auto dest: prefix_imp_sublist)
  moreover have "\<not> sublist old cs" using Cons.prems by (auto simp: sublist_Cons_right)
  ultimately show ?case using Cons.IH by simp
qed

lemma replace_underscore_gone: "95 \<notin> set (replace [95] [32] (s::nat list))"
  by (induction "[95::nat]" "[32::nat]" s rule: replace.induct) auto

lemma set_replace_delete: "set (replace old [] s) \<subseteq> set s"
proof (induction old "[]::'a list" s rule: replace.induct)
  case (1 old)
  show ?case by simp
next
  case (2 old c cs)
  show ?case
  proof (cases "old \<noteq> [] \<and> prefix old (c # cs)")
    case True
    with 2 have "set (replace old [] (drop (length old) (c # cs))) \<subseteq> set (drop (length old) (c # cs))"
      by simp
    also have "\<dots> \<subseteq> set (c # cs)" by (rule set_drop_subset)
    finally show ?thesis using True by simp
  next
    case False
    with 2 show ?thesis by auto
  qed
qed

text \<open>In a titled ASCII string no full stop is followed by a small m.\<close>

lemma ascii_title_no_dot_m: "\<not> sublist [46, 109] (ascii_title b s)"
proof (induction s arbitrary: b)
  case Nil
  show ?case by simp
next
  case (Cons c cs)
  have up: "ascii_to_upper x \<noteq> 109" for x
    by (auto simp: ascii_to_upper_def ascii_lower_letter_def)
  have dot: "ascii_to_lower c = 46 \<or> ascii_to_upper c = 46 \<Longrightarrow> \<not> ascii_cased c"
    by (auto simp: ascii_to_upper_def ascii_to_lower_def ascii_cased_def ascii_lower_letter_def ascii_upper_letter_def split: if_splits)
  have "\<not> prefix [46, 109] (ascii_title b (c # cs))"
  proof (cases cs)
    case Nil
    then show ?thesis by simp
  next
    case (Cons d ds)
    then show ?thesis using up dot by auto
  qed
  then show ?case using Cons.IH by (auto simp: sublist_Cons_right)
qed

lemma replace_all: "list_all P new \<Longrightarrow> list_all P s \<Longrightarrow> list_all P (replace old new s)"
proof (induction old new s rule: replace.induct)
  case (1 old new)
  show ?case by simp
next
  case (2 old new c cs)
  show ?case
  proof (cases "old \<noteq> [] \<and> prefix old (c # cs)")
    case True
    have "list_all P (drop (length old) (c # cs))"
      using "2.prems"(2) by (metis append_take_drop_id list_all_append)
    with 2 True show ?thesis by simp
  next
    case False
    with 2 show ?thesis by auto
  qed
qed

text \<open>
  Claim C8, as amended. For every file name made of ASCII characters, and every character
  database that agrees with ASCII, deriving the heading from a heading gives the same
  heading: the transform of \<open>file_title\<close> is idempotent on ASCII names.
\<close>

theorem file_title_idempotent_ascii:
  assumes db: "agrees_with_ascii db" and f: "list_all (\<lambda>c. c < 128) filename"
  shows "file_title db (file_title db filename) = file_title db filename"
proof -
  let ?r = "replace (lit ''.md'') [] (replace (lit ''_'') (lit '' '') filename)"
  have r_ascii: "list_all (\<lambda>c. c < 128) ?r"
    using f by (intro replace_all) (simp_all add: lit_def)
  have t: "file_title db filename = ascii_title False ?r"
    using title_ascii [OF db r_ascii] by (simp add: file_title_def)
  let ?t = "ascii_title False ?r"
  have "95 \<notin> set (replace (lit ''_'') (lit '' '') filename)"
    using replace_underscore_gone [of filename] by (simp add: lit_def)
  then have "95 \<notin> set ?r"
    using set_replace_delete [of "lit ''.md''" "replace (lit ''_'') (lit '' '') filename"]
    by (auto simp: lit_def)
  then have "95 \<notin> set ?t" by (rule ascii_title_underscore)
  then have "\<not> sublist (lit ''_'') ?t"
    by (auto simp: lit_def sublist_def)
  then have u: "replace (lit ''_'') (lit '' '') ?t = ?t" by (rule replace_absent)
  have "\<not> sublist [46, 109] ?t" by (rule ascii_title_no_dot_m)
  moreover have "sublist [46, 109] (lit ''.md'')"
    by (simp add: lit_def sublist_Cons_right)
  ultimately have "\<not> sublist (lit ''.md'') ?t"
    using sublist_order.order_trans by blast
  then have m: "replace (lit ''.md'') [] ?t = ?t" by (rule replace_absent)
  have t_ascii: "list_all (\<lambda>c. c < 128) ?t" using r_ascii by (rule ascii_title_ascii)
  have "file_title db ?t = title db ?t" by (simp add: file_title_def u m)
  also have "\<dots> = ascii_title False ?t" using title_ascii [OF db t_ascii] .
  also have "\<dots> = ?t" by (rule ascii_title_idem)
  finally show ?thesis by (simp add: t)
qed

text \<open>Both databases of the model agree with ASCII.\<close>

lemma ascii_db_agrees: "agrees_with_ascii ascii_db"
  by (simp add: agrees_with_ascii_def ascii_db_def)
lemma sample_db_agrees: "agrees_with_ascii sample_db"
  by (auto simp add: agrees_with_ascii_def sample_db_def)

text \<open>The theorem at the file name \<^verbatim>\<open>user_crud_doc.md\<close>, whose heading is \<^verbatim>\<open>User Crud Doc\<close>.\<close>

theorem file_title_idempotent_ascii_witness:
  "file_title ascii_db (file_title ascii_db (lit ''user_crud_doc.md'')) = lit ''User Crud Doc''"
  using file_title_idempotent_ascii [OF ascii_db_agrees, of "lit ''user_crud_doc.md''"]
  by (simp add: file_title_def title_def lit_def ascii_db_def  ascii_to_upper_def ascii_to_lower_def ascii_cased_def ascii_upper_letter_def ascii_lower_letter_def)

text \<open>
  Claim C8 as stated fails beyond ASCII. The file name is U+1E9A followed by \<^verbatim>\<open>b.md\<close>.
  Its heading is U+0041 U+02BE \<^verbatim>\<open>b\<close>: the letter is titlecased to two code points and
  \<^verbatim>\<open>b\<close>, which follows a cased letter, stays small. In the heading \<^verbatim>\<open>b\<close> follows
  U+02BE, which is not cased, so the second pass turns it into \<^verbatim>\<open>B\<close>.
\<close>

theorem file_title_not_idempotent:
  "file_title sample_db (file_title sample_db [0x1E9A, 98, 46, 109, 100]) = [0x41, 0x2BE, 0x42]
   \<and> file_title sample_db [0x1E9A, 98, 46, 109, 100] = [0x41, 0x2BE, 0x62]"
  by (simp add: file_title_def title_def lit_def sample_db_def  ascii_to_upper_def ascii_to_lower_def ascii_cased_def ascii_upper_letter_def ascii_lower_letter_def)

section \<open>Properties of format strings and of the prompt builder\<close>

lemma format_from_literal:
  "brace_free s \<Longrightarrow> format_from render key val acc (s @ rest) = format_from render key val (acc @ s) rest"
  by (induction s arbitrary: acc) (simp_all add: brace_free_def)

lemma parse_name_plain:
  "list_all (\<lambda>c. c \<notin> {123, 125, 91, 46, 58, 33}) key
    \<Longrightarrow> parse_name False acc (key @ 125 # rest) = Some (acc @ key, 125 # rest)"
  by (induction key arbitrary: acc) simp_all

lemma parse_field_plain:
  "plain_key key \<Longrightarrow> parse_field (key @ 125 # rest) = Some (key, None, [], rest)"
  using parse_name_plain [of key "[]" rest] by (simp add: parse_field_def plain_key_def)

lemma render_field_plain:
  "plain_key key \<Longrightarrow> render_field render key val key None [] = Inr val"
proof -
  assume k: "plain_key key"
  then have tw: "takeWhile (\<lambda>c. c \<noteq> 46 \<and> c \<noteq> 91) key = key"
    by (auto simp: plain_key_def list_all_iff)
  have "key \<noteq> []" using k by (simp add: plain_key_def)
  then show ?thesis unfolding render_field_def Let_def tw by simp
qed

lemma format_from_field:
  assumes k: "plain_key key"
  shows "format_from render key val acc (123 # key @ 125 # rest) = format_from render key val (acc @ val) rest"
proof -
  obtain c cs where key: "key = c # cs" using k by (cases key) (auto simp: plain_key_def)
  have c: "c \<noteq> 123" using k key by (simp add: plain_key_def)
  have "parse_field (c # cs @ 125 # rest) = Some (key, None, [], rest)"
    using parse_field_plain [OF k, of rest] key by simp
  then show ?thesis
    using c key render_field_plain [OF k] by simp
qed

lemma str_format_one_placeholder:
  assumes "plain_key key" "brace_free pre" "brace_free post"
  shows "str_format render (pre @ [123] @ key @ [125] @ post) key val = Inr (pre @ val @ post)"
proof -
  have "format_from render key val [] (pre @ 123 # key @ 125 # post)
      = format_from render key val pre (123 # key @ 125 # post)"
    using format_from_literal [OF assms(2), of render key val "[]"] by simp
  also have "\<dots> = format_from render key val (pre @ val) post"
    by (rule format_from_field [OF assms(1)])
  also have "\<dots> = Inr (pre @ val @ post)"
    using format_from_literal [OF assms(3), of render key val "pre @ val" "[]"] by simp
  finally show ?thesis by (simp add: str_format_def)
qed

lemma lit_append: "lit (a @ b) = lit a @ lit b"
  by (simp add: lit_def)

lemma code_key: "plain_key (lit ''code'')"
  by (simp add: plain_key_def lit_def)

lemma function_docs_key: "plain_key (lit ''function_docs'')"
  by (simp add: plain_key_def lit_def)

lemma placeholder_code: "lit ''{code}'' = [123] @ lit ''code'' @ [125]"
  by (simp add: lit_def)

lemma placeholder_function_docs: "lit ''{function_docs}'' = [123] @ lit ''function_docs'' @ [125]"
  by (simp add: lit_def)

text \<open>
  Claim C2, as amended. For every template that consists of text without braces, the
  placeholder \<^verbatim>\<open>{code}\<close>, and text without braces, and for every source text (which may
  itself contain braces), the prompt is the template with the source text in the place of
  the placeholder and everything else unchanged; this is the prompt \<open>generate_doc\<close> sends
  to the service.
\<close>

theorem prompt_is_template_with_code_substituted:
  assumes "brace_free pre" and "brace_free post"
  shows "str_format render (pre @ lit ''{code}'' @ post) (lit ''code'') code_snippet
           = Inr (pre @ code_snippet @ post)
         \<and> generate_doc db render (Inr (pre @ lit ''{code}'' @ post)) service code_snippet
           = (case service (pre @ code_snippet @ post) of
                Inl e \<Rightarrow> Inl (GenerationError e)
              | Inr response \<Rightarrow> Inr (strip db response))"
proof -
  have f: "str_format render (pre @ lit ''{code}'' @ post) (lit ''code'') code_snippet
           = Inr (pre @ code_snippet @ post)"
    unfolding placeholder_code
    using str_format_one_placeholder [OF code_key assms] by simp
  then show ?thesis by (simp add: generate_doc_def)
qed

text \<open>The theorem at a two-line template and a function whose source has braces.\<close>

theorem prompt_is_template_with_code_substituted_witness:
  "str_format no_renderer (lit ''Document this function:\<newline>'' @ lit ''{code}'' @ lit ''\<newline>Be brief.'')
      (lit ''code'') (lit ''def f(d): return {k: d[k] for k in d}'')
    = Inr (lit ''Document this function:\<newline>'' @ lit ''def f(d): return {k: d[k] for k in d}''
             @ lit ''\<newline>Be brief.'')"
proof -
  have pre: "brace_free (lit ''Document this function:\<newline>'')" by (simp add: brace_free_def lit_def)
  have post: "brace_free (lit ''\<newline>Be brief.'')" by (simp add: brace_free_def lit_def)
  show ?thesis
    by (rule prompt_is_template_with_code_substituted [OF pre post, THEN conjunct1])
qed

text \<open>
  Claim C2 as stated fails for a template with other braces: in the template
  \<^verbatim>\<open>{code} {{}}\<close> the text after the placeholder is \<^verbatim>\<open> {{}}\<close>, and the prompt for
  the source text \<^verbatim>\<open>x\<close> is \<^verbatim>\<open>x {}\<close>.
\<close>

theorem doubled_braces_are_not_copied:
  "str_format no_renderer (lit ''{code}'' @ lit '' {{}}'') (lit ''code'') (lit ''x'') = Inr (lit ''x {}'')"
  by code_simp

section \<open>Properties of the aggregator\<close>

lemma split_from_whole: "\<not> sublist sep s \<Longrightarrow> split_from sep cur s = [cur @ s]"
proof (induction s arbitrary: cur)
  case Nil
  show ?case by simp
next
  case (Cons c cs)
  have "\<not> prefix sep (c # cs)" using Cons.prems by (auto dest: prefix_imp_sublist)
  moreover have "\<not> sublist sep cs" using Cons.prems by (auto simp: sublist_Cons_right)
  ultimately show ?case using Cons.IH [of "cur @ [c]"] by simp
qed

lemma split_from_segment:
  assumes "sep \<noteq> []"
  shows "\<not> sublist sep (seg @ butlast sep)
    \<Longrightarrow> split_from sep cur (seg @ sep @ rest) = (cur @ seg) # split_from sep [] rest"
proof (induction seg arbitrary: cur)
  case Nil
  obtain c cs where sep: "sep = c # cs" using assms by (cases sep) auto
  have "split_from sep cur (c # cs @ rest) = cur # split_from sep [] (drop (length sep) (c # cs @ rest))"
    by (simp add: sep)
  then show ?case by (simp add: sep)
next
  case (Cons x seg)
  have np: "\<not> prefix sep (x # seg @ sep @ rest)"
  proof
    assume p: "prefix sep (x # seg @ sep @ rest)"
    have "x # seg @ sep @ rest = (x # seg @ butlast sep) @ (last sep # rest)"
      using assms by simp
    moreover have "length sep \<le> length (x # seg @ butlast sep)" by simp
    ultimately have "prefix sep (x # seg @ butlast sep)"
      using p by (metis prefix_length_prefix prefixI)
    then have "sublist sep ((x # seg) @ butlast sep)" by (auto dest: prefix_imp_sublist)
    with Cons.prems show False by simp
  qed
  have "\<not> sublist sep (seg @ butlast sep)"
    using Cons.prems by (auto simp: sublist_Cons_right)
  then have "split_from sep (cur @ [x]) (seg @ sep @ rest) = ((cur @ [x]) @ seg) # split_from sep [] rest"
    by (rule Cons.IH)
  then show ?case using np by simp
qed

lemma split_from_join:
  "sep \<noteq> [] \<Longrightarrow> segs \<noteq> [] \<Longrightarrow> list_all (\<lambda>s. \<not> sublist sep (s @ butlast sep)) segs
    \<Longrightarrow> split_from sep cur (join sep segs) = (cur @ hd segs) # tl segs"
proof (induction sep segs arbitrary: cur rule: join.induct)
  case (1 sep)
  then show ?case by simp
next
  case (2 sep s)
  then have "\<not> sublist sep s" by (auto simp: sublist_append)
  then show ?case by (simp add: split_from_whole)
next
  case (3 sep s t ss)
  have "split_from sep cur (s @ sep @ join sep (t # ss)) = (cur @ s) # split_from sep [] (join sep (t # ss))"
    using "3.prems" by (intro split_from_segment) simp_all
  moreover have "split_from sep [] (join sep (t # ss)) = ([] @ hd (t # ss)) # tl (t # ss)"
    using "3.prems" by (intro "3.IH") simp_all
  ultimately show ?case by simp
qed

lemma join_Cons_append: "segs \<noteq> [] \<Longrightarrow> join sep ((pre @ hd segs) # tl segs) = pre @ join sep segs"
  by (induction sep segs rule: join.induct) simp_all

text \<open>When every read succeeds the loop appends the sections, with a marker between them.\<close>

text \<open>One turn of the loop appends the section of the file, and the marker unless it is the last.\<close>

lemma combine_loop_step:
  "combine_loop db read n index (f # fs) acc =
     combine_loop db read n (index + 1) fs
       (acc @ module_section db read f
          @ (case read f of
               Inr body \<Rightarrow> if int index < int n - 1 then page_break_marker else []
             | Inl e \<Rightarrow> []))"
  by (simp add: module_section_def split: sum.split)

lemma combine_loop_all_read:
  "list_all (\<lambda>f. \<exists>body. read f = Inr body) fs \<Longrightarrow> fs \<noteq> [] \<Longrightarrow> index + length fs = n
    \<Longrightarrow> combine_loop db read n index fs acc
        = acc @ join page_break_marker (map (module_section db read) fs)"
proof (induction fs arbitrary: index acc)
  case Nil
  then show ?case by simp
next
  case (Cons f fs)
  from Cons.prems(1) obtain body where rd: "read f = Inr body" by auto
  show ?case
  proof (cases fs)
    case Nil
    have "\<not> int index < int n - 1" using Cons.prems(3) Nil by simp
    then show ?thesis using rd Nil by (simp only: combine_loop_step) simp
  next
    case (Cons g gs)
    then have notlast: "int index < int n - 1" using Cons.prems(3) by simp
    have ih: "combine_loop db read n (index + 1) fs (acc @ module_section db read f @ page_break_marker)
        = (acc @ module_section db read f @ page_break_marker)
            @ join page_break_marker (map (module_section db read) fs)"
      using Cons.prems Cons by (intro Cons.IH) auto
    have "combine_loop db read n index (f # fs) acc
        = combine_loop db read n (index + 1) fs (acc @ module_section db read f @ page_break_marker)"
      using rd notlast by (simp only: combine_loop_step) simp
    also have "\<dots> = acc @ join page_break_marker (map (module_section db read) (f # fs))"
      by (simp only: ih) (simp add: Cons)
    finally show ?thesis .
  qed
qed

lemma page_break_marker_nonempty: "page_break_marker \<noteq> []"
  by (simp add: page_break_marker_def)

text \<open>
  Claim C3, as amended. Take a non-empty list of Markdown files that are all read
  successfully, and suppose that no occurrence of the page-break marker begins inside a
  segment (the heading and stripped text of a file; for the first file, with the title of the
  document before it). Then splitting the combined text on the marker gives exactly these
  segments, one per file, in the order of the sorted file names.
\<close>

theorem combined_output_splits_into_sections:
  assumes files: "md_files \<noteq> []"
    and reads: "list_all (\<lambda>f. \<exists>body. read f = Inr body) md_files"
    and clean: "list_all (\<lambda>s. \<not> sublist page_break_marker (s @ butlast page_break_marker))
                  (expected_segments db read md_files)"
  shows "py_split page_break_marker (combined_content db read md_files)
           = expected_segments db read md_files
         \<and> length (py_split page_break_marker (combined_content db read md_files)) = length md_files"
proof -
  let ?fs = "sort md_files"
  let ?secs = "map (module_section db read) ?fs"
  have ne: "?fs \<noteq> []" using files by (metis length_sort length_0_conv)
  then have secs_ne: "?secs \<noteq> []" by simp
  have "list_all (\<lambda>f. \<exists>body. read f = Inr body) ?fs"
    using reads by (simp add: list_all_iff)
  then have cc: "combined_content db read md_files = document_title @ join page_break_marker ?secs"
    using ne by (simp add: combined_content_def combine_loop_all_read)
  have segs: "expected_segments db read md_files = (document_title @ hd ?secs) # tl ?secs"
    using secs_ne by (cases ?secs) (simp_all add: expected_segments_def)
  have "join page_break_marker ((document_title @ hd ?secs) # tl ?secs) = document_title @ join page_break_marker ?secs"
    using secs_ne by (rule join_Cons_append)
  then have "py_split page_break_marker (combined_content db read md_files)
      = split_from page_break_marker [] (join page_break_marker (expected_segments db read md_files))"
    by (simp add: py_split_def cc segs)
  also have "\<dots> = ([] @ hd (expected_segments db read md_files)) # tl (expected_segments db read md_files)"
    using clean page_break_marker_nonempty by (intro split_from_join) (simp_all add: segs)
  also have "\<dots> = expected_segments db read md_files" by (simp add: segs)
  finally have eq: "py_split page_break_marker (combined_content db read md_files) = expected_segments db read md_files" .
  have "length (expected_segments db read md_files) = length ?secs"
    using secs_ne by (simp only: segs) (cases ?secs, simp_all)
  then have "length (expected_segments db read md_files) = length md_files" by simp
  with eq show ?thesis by simp
qed

text \<open>The theorem at two files, given in the wrong order.\<close>

theorem combined_output_splits_into_sections_witness:
  "length (py_split page_break_marker
       (combined_content ascii_db (\<lambda>f. Inr (lit ''  text of '' @ f)) [lit ''b_doc.md'', lit ''a_doc.md'']))
     = length [lit ''b_doc.md'', lit ''a_doc.md'']"
proof -
  let ?read = "\<lambda>f::pystr. Inr (lit ''  text of '' @ f) :: pystr + pystr"
  let ?files = "[lit ''b_doc.md'', lit ''a_doc.md'']"
  have files: "?files \<noteq> []" by simp
  have reads: "list_all (\<lambda>f. \<exists>body. ?read f = Inr body) ?files" by simp
  have clean: "list_all (\<lambda>s. \<not> sublist page_break_marker (s @ butlast page_break_marker))
                  (expected_segments ascii_db ?read ?files)"
    by code_simp
  show ?thesis
    by (rule combined_output_splits_into_sections [OF files reads clean, THEN conjunct2])
qed

text \<open>
  Claim C3 as stated fails when the text of a file contains the marker: one file, whose text
  is \<^verbatim>\<open>x\<close>, the marker, \<^verbatim>\<open>y\<close>, gives two segments.
\<close>

theorem marker_inside_a_file_adds_a_segment:
  "length (py_split page_break_marker
       (combined_content ascii_db (\<lambda>f. Inr (lit ''x'' @ page_break_marker @ lit ''y'')) [lit ''a.md'']))
     \<noteq> length [lit ''a.md'']"
  by code_simp

lemma combine_loop_extends: "\<exists>suffix. combine_loop db read n index fs acc = acc @ suffix"
proof (induction fs arbitrary: index acc)
  case Nil
  show ?case by simp
next
  case (Cons f fs)
  let ?acc = "acc @ module_section db read f
          @ (case read f of
               Inr body \<Rightarrow> if int index < int n - 1 then page_break_marker else []
             | Inl e \<Rightarrow> [])"
  obtain suffix where "combine_loop db read n (index + 1) fs ?acc = ?acc @ suffix"
    using Cons.IH by blast
  then have "combine_loop db read n index (f # fs) acc = ?acc @ suffix"
    by (simp only: combine_loop_step)
  then show ?case by (metis append.assoc)
qed

lemma combine_loop_contains:
  "f \<in> set fs \<Longrightarrow> sublist (module_section db read f) (combine_loop db read n index fs acc)"
proof (induction fs arbitrary: index acc)
  case Nil
  then show ?case by simp
next
  case (Cons g fs)
  let ?tail = "case read g of
               Inr body \<Rightarrow> if int index < int n - 1 then page_break_marker else []
             | Inl e \<Rightarrow> []"
  let ?acc = "acc @ module_section db read g @ ?tail"
  have step: "combine_loop db read n index (g # fs) acc = combine_loop db read n (index + 1) fs ?acc"
    by (rule combine_loop_step)
  show ?case
  proof (cases "f = g")
    case True
    obtain suffix where "combine_loop db read n (index + 1) fs ?acc = ?acc @ suffix"
      using combine_loop_extends by blast
    then have "combine_loop db read n index (g # fs) acc = acc @ module_section db read f @ (?tail @ suffix)"
      using step True by simp
    then show ?thesis by (simp add: sublist_def) blast
  next
    case False
    then have "f \<in> set fs" using Cons.prems by simp
    then show ?thesis using Cons.IH step by simp
  qed
qed

text \<open>
  Claim C4. With no Markdown file the aggregator stops with \<open>NoInputError\<close>. When the read
  of a file fails, the combined text contains the error block that names the file and carries
  the text of the exception, and it contains the heading and text of every file that was
  read; with at least one file, and the output written, the outcome is that combined text.
\<close>

theorem aggregator_reports_failures_and_continues:
  "combine_markdown_files db read write [] = NoInputError
   \<and> (\<forall>f \<in> set md_files. \<forall>e. read f = Inl e \<longrightarrow>
        sublist (lit ''\<newline>\<newline>## Error processing '' @ f @ lit ''\<newline>'' @ e @ lit ''\<newline>\<newline>'')
                (combined_content db read md_files)
        \<and> (\<forall>g \<in> set md_files. \<forall>body. read g = Inr body \<longrightarrow>
              sublist (lit ''\<newline>\<newline># '' @ file_title db g @ lit ''\<newline>\<newline>'' @ strip db body)
                      (combined_content db read md_files)))
   \<and> (md_files \<noteq> [] \<longrightarrow>
        combine_markdown_files db read (\<lambda>content. None) md_files
          = Saved (combined_content db read md_files))"
proof -
  have sec: "sublist (module_section db read f) (combined_content db read md_files)"
    if "f \<in> set md_files" for f
    using that by (simp add: combined_content_def combine_loop_contains)
  have "sublist (lit ''\<newline>\<newline>## Error processing '' @ f @ lit ''\<newline>'' @ e @ lit ''\<newline>\<newline>'')
                (combined_content db read md_files)"
    if "f \<in> set md_files" "read f = Inl e" for f e
    using sec [OF that(1)] that(2) by (simp add: module_section_def)
  moreover have "sublist (lit ''\<newline>\<newline># '' @ file_title db g @ lit ''\<newline>\<newline>'' @ strip db body)
                      (combined_content db read md_files)"
    if "g \<in> set md_files" "read g = Inr body" for g body
    using sec [OF that(1)] that(2) by (simp add: module_section_def)
  ultimately show ?thesis
    by (simp add: combine_markdown_files_def)
qed

text \<open>The theorem at two files, the first of which (in sorted order) cannot be read.\<close>

theorem aggregator_reports_failures_and_continues_witness:
  "combine_markdown_files ascii_db
       (\<lambda>f. if f = lit ''a.md'' then Inl (lit ''Permission denied'') else Inr (lit ''body''))
       (\<lambda>content. None) [] = NoInputError
   \<and> combine_markdown_files ascii_db
       (\<lambda>f. if f = lit ''a.md'' then Inl (lit ''Permission denied'') else Inr (lit ''body''))
       (\<lambda>content. None) [lit ''b.md'', lit ''a.md'']
     = Saved (lit ''# Project: CRUD Functionality Documentation\<newline>\<newline>''
              @ lit ''\<newline>\<newline>## Error processing a.md\<newline>Permission denied\<newline>\<newline>''
              @ lit ''\<newline>\<newline># B\<newline>\<newline>body'')"
proof -
  let ?read = "\<lambda>f::pystr. if f = lit ''a.md'' then Inl (lit ''Permission denied'') else Inr (lit ''body'') :: pystr + pystr"
  have c: "combined_content ascii_db ?read [lit ''b.md'', lit ''a.md'']
      = lit ''# Project: CRUD Functionality Documentation\<newline>\<newline>''
              @ lit ''\<newline>\<newline>## Error processing a.md\<newline>Permission denied\<newline>\<newline>''
              @ lit ''\<newline>\<newline># B\<newline>\<newline>body''"
    by code_simp
  show ?thesis
    using aggregator_reports_failures_and_continues
             [of ascii_db ?read "\<lambda>content. None" "[lit ''b.md'', lit ''a.md'']"]
    by (simp only: c) simp
qed

section \<open>Properties of the report composer\<close>

lemma dec_value_snoc: "dec_value (ds @ [d]) = 10 * dec_value ds + (d - 48)"
  by (simp add: dec_value_def)

lemma str_nat_digits: "list_all is_digit (str_nat n) \<and> str_nat n \<noteq> []"
proof (induction n rule: str_nat.induct)
  case (1 n)
  show ?case
  proof (cases "n < 10")
    case True
    then show ?thesis by (subst (1 2) str_nat.simps) (simp add: is_digit_def)
  next
    case False
    with "1.IH" have "list_all is_digit (str_nat (n div 10))" by simp
    moreover have "is_digit (48 + n mod 10)" by (simp add: is_digit_def)
    ultimately show ?thesis using False by (subst (1 2) str_nat.simps) simp
  qed
qed

lemma dec_value_str_nat: "dec_value (str_nat n) = n"
proof (induction n rule: str_nat.induct)
  case (1 n)
  show ?case
  proof (cases "n < 10")
    case True
    then show ?thesis by (subst str_nat.simps) (simp add: dec_value_def)
  next
    case False
    with "1.IH" have "dec_value (str_nat (n div 10)) = n div 10" by simp
    with False show ?thesis by (subst str_nat.simps) (simp add: dec_value_snoc)
  qed
qed

lemma nat_of_str_str_nat: "nat_of_str (str_nat n) = Some n"
  using str_nat_digits [of n] by (simp add: nat_of_str_def dec_value_str_nat)

lemma hd_str_nat_not_minus: "hd (str_nat n) \<noteq> 45"
proof -
  have "is_digit (hd (str_nat n))"
    using str_nat_digits [of n] by (cases "str_nat n") simp_all
  then show ?thesis by (simp add: is_digit_def)
qed

lemma int_of_str_str_int: "int_of_str (str_int i) = Some i"
proof (cases "i < 0")
  case True
  then show ?thesis by (simp add: int_of_str_def str_int_def nat_of_str_str_nat)
next
  case False
  obtain c ds where s: "str_nat (nat i) = c # ds"
    using str_nat_digits [of "nat i"] by (cases "str_nat (nat i)") auto
  with hd_str_nat_not_minus [of "nat i"] have "c \<noteq> 45" by simp
  moreover have "nat_of_str (c # ds) = Some (nat i)"
    using nat_of_str_str_nat [of "nat i"] s by simp
  ultimately show ?thesis using False s by (simp add: int_of_str_def str_int_def)
qed

lemma entry_page_row: "entry_page [label, str_int p] = Some p"
  by (simp add: entry_page_def int_of_str_str_int)

text \<open>
  What the loop does to its state: it keeps the rows it was given, adds one row per module,
  the pages of the new rows go up in steps of 2 from the page number it was given, and it
  returns that number plus twice the number of modules.
\<close>

lemma toc_loop_shape:
  "\<exists>rows. toc_loop db i modules (toc, p) = (toc @ rows, p + 2 * int (length modules))
     \<and> map entry_page rows = map (\<lambda>k. Some (p + 2 * int k)) [0 ..< length modules]"
proof (induction modules arbitrary: i toc p)
  case Nil
  show ?case by simp
next
  case (Cons m ms)
  let ?row = "[str_int i @ lit ''. '' @ title db m @ lit '' Module Requirements'', str_int p]"
  obtain rows where
    r: "toc_loop db (i + 1) ms (toc @ [?row], p + 2) = ((toc @ [?row]) @ rows, p + 2 + 2 * int (length ms))"
    and pg: "map entry_page rows = map (\<lambda>k. Some (p + 2 + 2 * int k)) [0 ..< length ms]"
    using Cons.IH [of "i + 1" "toc @ [?row]" "p + 2"] by blast
  have shift: "map (\<lambda>k. Some (p + 2 * int k)) [0 ..< Suc (length ms)]
      = Some p # map (\<lambda>k. Some (p + 2 + 2 * int k)) [0 ..< length ms]"
    by (simp add: upt_conv_Cons map_Suc_upt [symmetric] del: upt_Suc)
  have "toc_loop db i (m # ms) (toc, p) = (toc @ (?row # rows), p + 2 * int (length (m # ms)))"
    using r by simp
  moreover have "map entry_page (?row # rows) = map (\<lambda>k. Some (p + 2 * int k)) [0 ..< length (m # ms)]"
    using pg shift by (simp add: entry_page_row del: upt_Suc)
  ultimately show ?case by blast
qed

text \<open>The pages of all entries, front matter first.\<close>

lemma toc_entries_pages:
  "map entry_page (toc_entries db modules) =
     map Some ([3, 4, 5] @ map (\<lambda>k. 6 + 2 * int k) [0 ..< length modules]
                @ [6 + 2 * int (length modules), 7 + 2 * int (length modules)])"
proof -
  let ?front = "[[lit ''Section'', lit ''Page''],
                [lit ''1. Introduction'', lit ''3''],
                [lit ''2. System Overview'', lit ''4''],
                [lit ''3. Functional Requirements'', lit ''5'']]"
  obtain rows where
    r: "toc_loop db 4 modules (?front, 6) = (?front @ rows, 6 + 2 * int (length modules))"
    and pg: "map entry_page rows = map (\<lambda>k. Some (6 + 2 * int k)) [0 ..< length modules]"
    using toc_loop_shape [of db 4 modules ?front 6] by blast
  have three: "lit ''3'' = str_int 3" "lit ''4'' = str_int 4" "lit ''5'' = str_int 5"
    by (simp_all add: lit_def str_int_def str_nat.simps)
  have "toc_entries db modules =
      [[lit ''1. Introduction'', str_int 3], [lit ''2. System Overview'', str_int 4],
       [lit ''3. Functional Requirements'', str_int 5]] @ rows @
      [[str_int (int (length modules) + 4) @ lit ''. Non-Functional Requirements'',
        str_int (6 + 2 * int (length modules))],
       [str_int (int (length modules) + 5) @ lit ''. Appendices'',
        str_int (6 + 2 * int (length modules) + 1)]]"
    using r by (simp add: toc_entries_def toc_data_def three)
  then show ?thesis
    using pg by (simp add: entry_page_row comp_def)
qed

lemma sorted_wrt_stride: "sorted_wrt (<) (map (\<lambda>k. 6 + 2 * int k) [0 ..< n])"
  by (simp add: sorted_wrt_map sorted_wrt_iff_nth_less)

text \<open>
  Claim C6. For every list of modules (and whatever the character database), the table of
  contents has exactly 3 + (number of modules) + 2 entries; every entry carries a page number,
  and these page numbers are strictly increasing from one entry to the next.
\<close>

theorem toc_entries_count_and_pages_increasing:
  "length (toc_entries db modules) = 3 + length modules + 2
   \<and> (\<exists>pages. map entry_page (toc_entries db modules) = map Some pages
        \<and> sorted_wrt (<) pages)"
proof -
  let ?n = "length modules"
  let ?pages = "[3, 4, 5] @ map (\<lambda>k. 6 + 2 * int k) [0 ..< ?n]
                  @ [6 + 2 * int ?n, 7 + 2 * int ?n]"
  have pg: "map entry_page (toc_entries db modules) = map Some ?pages"
    by (rule toc_entries_pages)
  have "length (map entry_page (toc_entries db modules)) = length (map Some ?pages)"
    using pg by simp
  then have len: "length (toc_entries db modules) = 3 + ?n + 2" by simp
  have "sorted_wrt (<) ?pages"
    using sorted_wrt_stride [of ?n] by (auto simp: sorted_wrt_append)
  with pg len show ?thesis by blast
qed

subsection \<open>The requirements text of a module\<close>

lemma default_prompt_brace_free: "brace_free default_prompt_head" "brace_free default_prompt_tail"
  by (simp_all add: brace_free_def default_prompt_head_def default_prompt_tail_def lit_def)

lemma default_prompt_formats:
  "str_format render get_default_prompt (lit ''function_docs'') function_docs
     = Inr (default_prompt_head @ function_docs @ default_prompt_tail)"
  unfolding get_default_prompt_def placeholder_function_docs
  using str_format_one_placeholder [OF function_docs_key default_prompt_brace_free] by simp

text \<open>
  Claim C10, as amended. Whenever the prompt template loads and formats, the generation
  step returns a string: with the built-in template (no template file) for every input, and
  with a template file whenever \<^verbatim>\<open>format\<close> succeeds on it. When the call of the service
  fails, the string is \<^verbatim>\<open>Error generating content for this module: \<close> followed by the
  text of the error.
\<close>

theorem generate_srs_content_returns_when_template_formats:
  "generate_srs_content db render NotFound service function_docs =
     Inr (case service (default_prompt_head @ function_docs @ default_prompt_tail) of
            Inr response \<Rightarrow> strip db response
          | Inl e \<Rightarrow> lit ''Error generating content for this module: '' @ e)
   \<and> (str_format render t (lit ''function_docs'') function_docs = Inr prompt \<longrightarrow>
        generate_srs_content db render (Contents t) service function_docs =
          Inr (case service prompt of
                 Inr response \<Rightarrow> strip db response
               | Inl e \<Rightarrow> lit ''Error generating content for this module: '' @ e))"
  by (simp add: generate_srs_content_def load_prompt_template_def default_prompt_formats
           split: sum.split)

text \<open>The theorem at a template file with the expected placeholder and a failing service.\<close>

theorem generate_srs_content_returns_when_template_formats_witness:
  "generate_srs_content ascii_db no_renderer (Contents (lit ''Requirements for: {function_docs}''))
      (\<lambda>prompt. Inl (lit ''quota exceeded'')) (lit ''docs'')
    = Inr (lit ''Error generating content for this module: quota exceeded'')"
proof -
  have "str_format no_renderer (lit ''Requirements for: {function_docs}'') (lit ''function_docs'') (lit ''docs'')
      = Inr (lit ''Requirements for: docs'')"
    by code_simp
  then show ?thesis
    using generate_srs_content_returns_when_template_formats
      [of ascii_db no_renderer "\<lambda>prompt. Inl (lit ''quota exceeded'')" "lit ''docs''"
          "lit ''Requirements for: {function_docs}''" "lit ''Requirements for: docs''"]
    by (simp add: lit_def)
qed

text \<open>
  Claim C10 as stated fails: formatting happens before the \<^verbatim>\<open>try\<close>, so a template file
  with a placeholder of another name makes the step raise, whatever the service does.
\<close>

theorem generate_srs_content_raises_on_bad_template:
  "generate_srs_content ascii_db no_renderer (Contents (lit ''{docs}''))
      (\<lambda>prompt. Inr prompt) (lit ''text'') = Inl FormatError"
  by code_simp

end
